theory Spec2Isabelle
  imports Main
begin

section \<open>The rate limiter of src/middlewares/rateLimiter.ts\<close>

text \<open>
  The middleware is a closure over the two options and over one private
  \<^verbatim>\<open>Map<string, number[]>\<close>. Numbers are the integral millisecond readings of
  \<^verbatim>\<open>Date.now()\<close> and the integral options of the service; every intermediate
  value of the arithmetic below stays far under \<open>2^53\<close> for such readings, so the
  doubles of the program compute exactly what \<^typ>\<open>int\<close> computes here.

  Arrays are objects: the Map holds references, \<^verbatim>\<open>filter\<close> allocates a new
  array, and \<^verbatim>\<open>push\<close> mutates an array that the Map may already refer to. The
  state is therefore a Map of references together with a store of arrays.
\<close>

subsection \<open>Data\<close>

record IRateLimiterOptions =
  windowInSeconds :: int
  maxRequests :: int

text \<open>The only field of the Express request that the middleware reads;
  \<^verbatim>\<open>req.ip\<close> has type \<^verbatim>\<open>string | undefined\<close>.\<close>

record Request =
  ip :: "string option"

datatype json = JNull | JString string | JObject "(string \<times> json) list"

text \<open>What one invocation does to the outside: either it calls \<^verbatim>\<open>next()\<close>, or it
  returns \<^verbatim>\<open>res.status(c).json(b)\<close> without calling it.\<close>

datatype outcome = Next | Respond (status: nat) (body: json)

type_synonym addr = nat

record limiter =
  requests :: "string \<rightharpoonup> addr"
  arrays :: "addr \<rightharpoonup> int list"
  fresh :: addr

text \<open>\<^verbatim>\<open>const requests = new Map<string, number[]>()\<close>\<close>

definition init :: limiter where
  "init = \<lparr>requests = Map.empty, arrays = Map.empty, fresh = 0\<rparr>"

subsection \<open>Store operations\<close>

text \<open>An array literal or the result of \<^verbatim>\<open>filter\<close>: a new object.\<close>

definition alloc :: "int list \<Rightarrow> limiter \<Rightarrow> addr \<times> limiter" where
  "alloc xs s =
     (fresh s, s\<lparr>arrays := (arrays s)(fresh s \<mapsto> xs), fresh := Suc (fresh s)\<rparr>)"

text \<open>The elements of the array behind a reference. A reference held by the program
  always names an allocated array (\<open>run_wf_limiter\<close> below); the other branch is never taken
  on a state the program can reach.\<close>

definition contents :: "limiter \<Rightarrow> addr \<Rightarrow> int list" where
  "contents s a = (case arrays s a of None \<Rightarrow> [] | Some xs \<Rightarrow> xs)"

text \<open>\<^verbatim>\<open>requests.set(k, a)\<close>\<close>

definition map_set :: "string \<Rightarrow> addr \<Rightarrow> limiter \<Rightarrow> limiter" where
  "map_set k a s = s\<lparr>requests := (requests s)(k \<mapsto> a)\<rparr>"

text \<open>\<^verbatim>\<open>a.push(x)\<close>: the array object itself grows, whoever refers to it.\<close>

definition push :: "addr \<Rightarrow> int \<Rightarrow> limiter \<Rightarrow> limiter" where
  "push a x s = s\<lparr>arrays := (arrays s)(a \<mapsto> contents s a @ [x])\<rparr>"

subsection \<open>The middleware\<close>

text \<open>\<^verbatim>\<open>const ip = req.ip || 'unknown'\<close>: \<^verbatim>\<open>undefined\<close> and the empty string are
  the falsy values of \<^verbatim>\<open>string | undefined\<close>.\<close>

definition client_key :: "Request \<Rightarrow> string" where
  "client_key req =
     (case ip req of None \<Rightarrow> ''unknown''
      | Some a \<Rightarrow> if a = [] then ''unknown'' else a)"

text \<open>\<^verbatim>\<open>(time) => now - time * 1000 < windowInSeconds\<close>\<close>

definition in_window :: "IRateLimiterOptions \<Rightarrow> int \<Rightarrow> int \<Rightarrow> bool" where
  "in_window opts now time \<longleftrightarrow> now - time * 1000 < windowInSeconds opts"

text \<open>\<^verbatim>\<open>requests.get(k) ?? []\<close>\<close>

definition userRequests :: "limiter \<Rightarrow> string \<Rightarrow> int list" where
  "userRequests s k = (case requests s k of None \<Rightarrow> [] | Some a \<Rightarrow> contents s a)"

text \<open>\<^verbatim>\<open>userRequests.filter(...)\<close>, as a value.\<close>

definition recent :: "IRateLimiterOptions \<Rightarrow> int \<Rightarrow> limiter \<Rightarrow> string \<Rightarrow> int list" where
  "recent opts now s k = filter (in_window opts now) (userRequests s k)"

text \<open>One invocation, line by line; \<open>now\<close> is the reading of \<^verbatim>\<open>Date.now()\<close>.\<close>

definition rateLimiter ::
  "IRateLimiterOptions \<Rightarrow> Request \<Rightarrow> int \<Rightarrow> limiter \<Rightarrow> outcome \<times> limiter" where
  "rateLimiter opts req now s0 =
     (let k = client_key req;
          s1 = (if requests s0 k = None
                then (let (e, s) = alloc [] s0 in map_set k e s)
                else s0);
          (r, s2) = alloc (recent opts now s1 k) s1;
          s3 = map_set k r s2
      in if maxRequests opts \<le> int (length (contents s3 r))
         then (Respond 429 (JString ''Too many requests''), s3)
         else (Next, push r now s3))"

subsection \<open>Sequences of invocations\<close>

text \<open>The registry after a sequence of calls, oldest first, and the outcome of each.\<close>

fun serve ::
  "IRateLimiterOptions \<Rightarrow> (Request \<times> int) list \<Rightarrow> limiter \<Rightarrow> outcome list \<times> limiter" where
  "serve opts [] s = ([], s)"
| "serve opts ((req, now) # cs) s =
     (let (out, s') = rateLimiter opts req now s;
          (outs, s'') = serve opts cs s'
      in (out # outs, s''))"

definition run :: "IRateLimiterOptions \<Rightarrow> (Request \<times> int) list \<Rightarrow> limiter" where
  "run opts cs = snd (serve opts cs init)"

text \<open>The readings of the clock at which the calls of key \<open>k\<close> were admitted.\<close>

fun admitted ::
  "IRateLimiterOptions \<Rightarrow> string \<Rightarrow> (Request \<times> int) list \<Rightarrow> limiter \<Rightarrow> int list" where
  "admitted opts k [] s = []"
| "admitted opts k ((req, now) # cs) s =
     (let (out, s') = rateLimiter opts req now s
      in (if client_key req = k \<and> out = Next then [now] else [])
         @ admitted opts k cs s')"

text \<open>The entry of the registry under a key, as a value: \<^verbatim>\<open>requests.get(k)\<close>.\<close>

definition bucket :: "limiter \<Rightarrow> string \<Rightarrow> int list option" where
  "bucket s k = map_option (contents s) (requests s k)"

text \<open>Every reference in the Map was allocated before.\<close>

definition wf_limiter :: "limiter \<Rightarrow> bool" where
  "wf_limiter s \<longleftrightarrow> (\<forall>k a. requests s k = Some a \<longrightarrow> a < fresh s \<and> arrays s a \<noteq> None)"

text \<open>A reading of a clock that counts milliseconds from an epoch at least \<open>lo\<close>
  milliseconds ago, and that has not yet run to a thousand times \<open>lo\<close>. With
  \<open>lo = 10^12\<close> these are the readings from September 2001 to the year 33658.\<close>

definition epoch_ms :: "int \<Rightarrow> int \<Rightarrow> bool" where
  "epoch_ms lo t \<longleftrightarrow> lo \<le> t \<and> t \<le> 1000 * lo"

text \<open>The pruning rule in the words of the specification: keep entry \<open>t\<close> if
  \<^verbatim>\<open>now - t < windowInSeconds * 1000\<close>. The source's rule is \<open>in_window\<close>.\<close>

definition spec_in_window :: "IRateLimiterOptions \<Rightarrow> int \<Rightarrow> int \<Rightarrow> bool" where
  "spec_in_window opts now t \<longleftrightarrow> now - t < windowInSeconds opts * 1000"

text \<open>\<^verbatim>\<open>app.use(rateLimiter({ windowInSeconds: 60, maxRequests: 100 }))\<close>\<close>

definition server_opts :: IRateLimiterOptions where
  "server_opts = \<lparr>windowInSeconds = 60, maxRequests = 100\<rparr>"

section \<open>One invocation\<close>

lemma userRequests_bucket:
  "userRequests s k = (case bucket s k of None \<Rightarrow> [] | Some xs \<Rightarrow> xs)"
  by (simp add: userRequests_def bucket_def split: option.split)

lemma rateLimiter_outcome:
  "fst (rateLimiter opts req now s) =
     (if maxRequests opts \<le> int (length (recent opts now s (client_key req)))
      then Respond 429 (JString ''Too many requests'') else Next)"
  by (simp add: rateLimiter_def Let_def alloc_def map_set_def contents_def recent_def
      userRequests_def split: option.split)

lemma rateLimiter_own_bucket:
  "bucket (snd (rateLimiter opts req now s)) (client_key req) =
     Some (if maxRequests opts \<le> int (length (recent opts now s (client_key req)))
           then recent opts now s (client_key req)
           else recent opts now s (client_key req) @ [now])"
  by (simp add: rateLimiter_def Let_def alloc_def map_set_def contents_def recent_def
      userRequests_def bucket_def push_def split: option.split)

lemma rateLimiter_other_bucket:
  assumes "wf_limiter s" and "k \<noteq> client_key req"
  shows "bucket (snd (rateLimiter opts req now s)) k = bucket s k"
proof (cases "requests s k")
  case None
  then show ?thesis using assms(2)
    by (simp add: rateLimiter_def Let_def alloc_def map_set_def bucket_def push_def)
next
  case (Some a)
  with assms(1) have "a < fresh s" by (simp add: wf_limiter_def)
  with Some assms(2) show ?thesis
    by (simp add: rateLimiter_def Let_def alloc_def map_set_def bucket_def push_def
        contents_def)
qed

lemma rateLimiter_wf_limiter:
  assumes "wf_limiter s"
  shows "wf_limiter (snd (rateLimiter opts req now s))"
  using assms
  by (auto simp add: wf_limiter_def rateLimiter_def Let_def alloc_def map_set_def push_def
      less_Suc_eq split: if_splits)

section \<open>Sequences of invocations\<close>

lemma serve_Cons:
  "serve opts ((req, now) # cs) s =
     (fst (rateLimiter opts req now s) # fst (serve opts cs (snd (rateLimiter opts req now s))),
      snd (serve opts cs (snd (rateLimiter opts req now s))))"
  by (simp add: split_beta)

lemma admitted_Cons:
  "admitted opts k ((req, now) # cs) s =
     (if client_key req = k \<and> fst (rateLimiter opts req now s) = Next then [now] else [])
     @ admitted opts k cs (snd (rateLimiter opts req now s))"
  by (simp add: split_beta)

lemma serve_wf_limiter:
  "wf_limiter s \<Longrightarrow> wf_limiter (snd (serve opts cs s))"
proof (induction cs arbitrary: s)
  case Nil
  then show ?case by simp
next
  case (Cons c cs)
  obtain req now where c: "c = (req, now)" by (cases c)
  from Cons.prems have "wf_limiter (snd (rateLimiter opts req now s))"
    by (rule rateLimiter_wf_limiter)
  then have "wf_limiter (snd (serve opts cs (snd (rateLimiter opts req now s))))"
    by (rule Cons.IH)
  then show ?case
    by (simp only: c serve_Cons snd_conv)
qed

lemma init_wf_limiter: "wf_limiter init"
  by (simp add: wf_limiter_def init_def)

lemma run_wf_limiter: "wf_limiter (run opts cs)"
  unfolding run_def by (rule serve_wf_limiter [OF init_wf_limiter])

lemma in_window_epoch:
  assumes "0 < windowInSeconds opts" and "epoch_ms lo now" and "epoch_ms lo t"
  shows "in_window opts now t"
  using assms by (simp add: in_window_def epoch_ms_def)

lemma recent_epoch:
  assumes "0 < windowInSeconds opts" and "epoch_ms lo now"
    and "\<forall>t\<in>set (userRequests s k). epoch_ms lo t"
  shows "recent opts now s k = userRequests s k"
  unfolding recent_def using assms by (simp add: in_window_epoch)

lemma userRequests_step_own:
  "userRequests (snd (rateLimiter opts req now s)) (client_key req) =
     (if maxRequests opts \<le> int (length (recent opts now s (client_key req)))
      then recent opts now s (client_key req)
      else recent opts now s (client_key req) @ [now])"
  by (simp add: userRequests_bucket rateLimiter_own_bucket)

lemma userRequests_step_other:
  "wf_limiter s \<Longrightarrow> k \<noteq> client_key req \<Longrightarrow>
   userRequests (snd (rateLimiter opts req now s)) k = userRequests s k"
  by (simp add: userRequests_bucket rateLimiter_other_bucket)

lemma serve_bounded:
  assumes "wf_limiter s"
    and "int (length (userRequests s k)) \<le> maxRequests opts"
  shows "int (length (userRequests (snd (serve opts cs s)) k)) \<le> maxRequests opts"
  using assms
proof (induction cs arbitrary: s)
  case Nil
  then show ?case by simp
next
  case (Cons c cs)
  obtain req now where c: "c = (req, now)" by (cases c)
  define s' where "s' = snd (rateLimiter opts req now s)"
  have wf': "wf_limiter s'"
    unfolding s'_def using Cons.prems(1) by (rule rateLimiter_wf_limiter)
  have len': "int (length (userRequests s' k)) \<le> maxRequests opts"
  proof (cases "client_key req = k")
    case True
    have "length (recent opts now s k) \<le> length (userRequests s k)"
      by (simp add: recent_def)
    then show ?thesis
      using userRequests_step_own [of opts req now s] Cons.prems(2) True
      by (simp add: s'_def)
  next
    case False
    then show ?thesis
      using userRequests_step_other [OF Cons.prems(1), of k req opts now] Cons.prems(2)
      by (simp add: s'_def)
  qed
  have "snd (serve opts (c # cs) s) = snd (serve opts cs s')"
    by (simp only: c serve_Cons snd_conv s'_def)
  then show ?case
    using Cons.IH [OF wf' len'] by simp
qed

lemma serve_epoch:
  assumes "0 < windowInSeconds opts"
    and "wf_limiter s"
    and "\<forall>t\<in>set (userRequests s k). epoch_ms lo t"
    and "\<forall>c\<in>set cs. client_key (fst c) = k \<longrightarrow> epoch_ms lo (snd c)"
  shows "userRequests (snd (serve opts cs s)) k = userRequests s k @ admitted opts k cs s"
  using assms(2-)
proof (induction cs arbitrary: s)
  case Nil
  then show ?case by simp
next
  case (Cons c cs)
  obtain req now where c: "c = (req, now)" by (cases c)
  define s' where "s' = snd (rateLimiter opts req now s)"
  define adm where "adm \<longleftrightarrow> client_key req = k \<and> fst (rateLimiter opts req now s) = Next"
  have now: "epoch_ms lo now" if "client_key req = k"
    using Cons.prems(3) that by (simp add: c)
  have wf': "wf_limiter s'"
    unfolding s'_def using Cons.prems(1) by (rule rateLimiter_wf_limiter)
  have rest: "\<forall>c\<in>set cs. client_key (fst c) = k \<longrightarrow> epoch_ms lo (snd c)"
    using Cons.prems(3) by simp
  have u': "userRequests s' k = userRequests s k @ (if adm then [now] else [])"
  proof (cases "client_key req = k")
    case True
    have "recent opts now s k = userRequests s k"
      using assms(1) now [OF True] Cons.prems(2) by (rule recent_epoch)
    then show ?thesis
      using userRequests_step_own [of opts req now s] rateLimiter_outcome [of opts req now s] True
      by (simp add: s'_def adm_def)
  next
    case False
    then show ?thesis
      using userRequests_step_other [OF Cons.prems(1), of k req opts now]
      by (simp add: s'_def adm_def)
  qed
  have ep': "\<forall>t\<in>set (userRequests s' k). epoch_ms lo t"
    using u' Cons.prems(2) now by (auto simp add: adm_def)
  have ih: "userRequests (snd (serve opts cs s')) k = userRequests s' k @ admitted opts k cs s'"
    by (rule Cons.IH [OF wf' ep' rest])
  have final: "snd (serve opts (c # cs) s) = snd (serve opts cs s')"
    by (simp only: c serve_Cons snd_conv s'_def)
  have adms: "admitted opts k (c # cs) s = (if adm then [now] else []) @ admitted opts k cs s'"
    by (simp only: c admitted_Cons s'_def adm_def)
  show ?case
    by (simp only: final adms ih u' append_assoc)
qed

lemma run_epoch:
  assumes "0 < windowInSeconds opts"
    and "\<forall>c\<in>set cs. client_key (fst c) = k \<longrightarrow> epoch_ms lo (snd c)"
  shows "userRequests (run opts cs) k = admitted opts k cs init"
proof -
  have nil: "userRequests init k = []"
    by (simp add: userRequests_def init_def)
  then have "\<forall>t\<in>set (userRequests init k). epoch_ms lo t"
    by simp
  with assms(1) init_wf_limiter
  have "userRequests (snd (serve opts cs init)) k = userRequests init k @ admitted opts k cs init"
    using assms(2) by (rule serve_epoch)
  then show ?thesis
    by (simp add: run_def nil)
qed

lemma run_bounded:
  assumes "0 \<le> maxRequests opts"
  shows "int (length (userRequests (run opts cs) k)) \<le> maxRequests opts"
proof -
  have "int (length (userRequests init k)) \<le> maxRequests opts"
    using assms by (simp add: userRequests_def init_def)
  with init_wf_limiter show ?thesis
    unfolding run_def by (rule serve_bounded)
qed

lemma admitted_from_calls:
  "t \<in> set (admitted opts k cs s) \<Longrightarrow> \<exists>req. (req, t) \<in> set cs \<and> client_key req = k"
proof (induction cs arbitrary: s)
  case Nil
  then show ?case by simp
next
  case (Cons c cs)
  obtain req now where c: "c = (req, now)" by (cases c)
  from Cons.prems have "(client_key req = k \<and> t = now)
      \<or> t \<in> set (admitted opts k cs (snd (rateLimiter opts req now s)))"
    by (auto simp only: c admitted_Cons set_append Un_iff set_simps split: if_splits)
  then show ?case
  proof
    assume "client_key req = k \<and> t = now"
    then show ?thesis by (auto simp add: c)
  next
    assume "t \<in> set (admitted opts k cs (snd (rateLimiter opts req now s)))"
    then obtain r where "(r, t) \<in> set cs" and "client_key r = k"
      using Cons.IH by blast
    then show ?thesis by auto
  qed
qed

text \<open>On the readings of an epoch clock the filter keeps every timestamp, so a key is
  admitted at most \<open>maxRequests\<close> times in all, and in any window.\<close>

lemma quota_on_epoch_readings:
  assumes "0 < windowInSeconds opts" and "0 < maxRequests opts"
    and "\<forall>c\<in>set calls. client_key (fst c) = k \<longrightarrow> epoch_ms lo (snd c)"
  shows "int (length (filter (\<lambda>t. t \<le> at \<and> at - t < windowInSeconds opts * 1000)
                 (admitted opts k calls init))) \<le> maxRequests opts"
proof -
  have "userRequests (run opts calls) k = admitted opts k calls init"
    using assms(1,3) by (rule run_epoch)
  moreover have "int (length (userRequests (run opts calls) k)) \<le> maxRequests opts"
    using assms(2) by (simp add: run_bounded)
  ultimately have total: "int (length (admitted opts k calls init)) \<le> maxRequests opts"
    by simp
  have "length (filter (\<lambda>t. t \<le> at \<and> at - t < windowInSeconds opts * 1000)
          (admitted opts k calls init)) \<le> length (admitted opts k calls init)"
    by (rule length_filter_le)
  with total show ?thesis by linarith
qed

section \<open>The claims\<close>

text \<open>
  C1 (quota invariant). The specification asks that, with a positive window and a positive
  maximum, no trailing window of \<open>windowInSeconds\<close> seconds hold more than \<open>maxRequests\<close>
  admitted calls of one key. With a window of one second and a maximum of one request, two
  requests of one key at the clock readings 0 and 1, one millisecond apart, are both
  admitted: at the second call the filter compares \<open>1 - 0 * 1000\<close> with the window in
  seconds and drops the first timestamp. The window that ends at the second call holds two
  admitted calls.
\<close>

theorem quota_exceeded_at_small_readings:
  "0 < windowInSeconds \<lparr>windowInSeconds = 1, maxRequests = 1\<rparr>
   \<and> 0 < maxRequests \<lparr>windowInSeconds = 1, maxRequests = 1\<rparr>
   \<and> fst (serve \<lparr>windowInSeconds = 1, maxRequests = 1\<rparr>
          [(\<lparr>ip = Some ''10.0.0.1''\<rparr>, 0), (\<lparr>ip = Some ''10.0.0.1''\<rparr>, 1)] init)
       = [Next, Next]
   \<and> admitted \<lparr>windowInSeconds = 1, maxRequests = 1\<rparr> ''10.0.0.1''
          [(\<lparr>ip = Some ''10.0.0.1''\<rparr>, 0), (\<lparr>ip = Some ''10.0.0.1''\<rparr>, 1)] init
       = [0, 1]
   \<and> \<not> int (length (filter
          (\<lambda>t. t \<le> 1 \<and> 1 - t < windowInSeconds \<lparr>windowInSeconds = 1, maxRequests = 1\<rparr> * 1000)
          (admitted \<lparr>windowInSeconds = 1, maxRequests = 1\<rparr> ''10.0.0.1''
             [(\<lparr>ip = Some ''10.0.0.1''\<rparr>, 0), (\<lparr>ip = Some ''10.0.0.1''\<rparr>, 1)] init)))
        \<le> maxRequests \<lparr>windowInSeconds = 1, maxRequests = 1\<rparr>"
  by code_simp

text \<open>
  C2 (window expiry). The specification asks that, after \<open>maxRequests\<close> requests admitted at
  time \<open>T\<close>, a request of the same key at \<open>T + windowInSeconds * 1000 + 1\<close> be admitted. With
  a window of 60 seconds and a maximum of 2, two requests at \<open>T = 1700000000000\<close> are admitted
  and the request at \<open>T + 60001\<close> is answered with 429.
\<close>

theorem window_expiry_rejected:
  "fst (serve \<lparr>windowInSeconds = 60, maxRequests = 2\<rparr>
         [(\<lparr>ip = Some ''10.0.0.1''\<rparr>, 1700000000000),
          (\<lparr>ip = Some ''10.0.0.1''\<rparr>, 1700000000000),
          (\<lparr>ip = Some ''10.0.0.1''\<rparr>, 1700000000000 + 60 * 1000 + 1)] init)
     = [Next, Next, Respond 429 (JString ''Too many requests'')]"
  by code_simp

text \<open>
  C3 (pruning arithmetic). The specification keeps a timestamp \<open>t\<close> if and only if
  \<open>now - t < windowInSeconds * 1000\<close>. The filter of the source multiplies the timestamp
  instead of the window: with the options of the service, a timestamp that is 60001
  milliseconds old is kept by the source, and is not kept by the rule of the specification.
\<close>

theorem pruning_keeps_stale_timestamp:
  "in_window server_opts 1700000060001 1700000000000
   \<and> \<not> spec_in_window server_opts 1700000060001 1700000000000
   \<and> recent server_opts 1700000060001
        (run server_opts [(\<lparr>ip = Some ''10.0.0.1''\<rparr>, 1700000000000)]) ''10.0.0.1''
       = [1700000000000]"
  by code_simp

text \<open>
  C4 (registry recency). The specification asks that, after a decision, the entry of the
  decided key hold only timestamps younger than the window. With the options of the service,
  after a request at \<open>1700000000000\<close> and a decision at \<open>1700000060001\<close> the entry still holds
  the first timestamp, whose age is 60001 milliseconds.
\<close>

theorem registry_holds_stale_timestamp:
  "bucket (run server_opts
        [(\<lparr>ip = Some ''10.0.0.1''\<rparr>, 1700000000000),
         (\<lparr>ip = Some ''10.0.0.1''\<rparr>, 1700000060001)]) ''10.0.0.1''
     = Some [1700000000000, 1700000060001]
   \<and> \<not> spec_in_window server_opts 1700000060001 1700000000000"
  by code_simp

text \<open>
  C5 (ADMIT path). Whatever the registry holds, when the pruned sequence of the client key
  is shorter than \<open>maxRequests\<close> the invocation calls \<^verbatim>\<open>next()\<close>, and afterwards the
  registry holds, under the client key, the pruned sequence with \<open>now\<close> appended.
\<close>

theorem admit_path:
  assumes "int (length (recent opts now s (client_key req))) < maxRequests opts"
  shows "fst (rateLimiter opts req now s) = Next
       \<and> bucket (snd (rateLimiter opts req now s)) (client_key req)
           = Some (recent opts now s (client_key req) @ [now])"
  using assms by (simp add: rateLimiter_outcome rateLimiter_own_bucket)

theorem admit_path_witness:
  "int (length (recent server_opts 1700000000001
          (run server_opts [(\<lparr>ip = Some ''10.0.0.1''\<rparr>, 1700000000000)]) ''10.0.0.1''))
     < maxRequests server_opts
   \<and> fst (rateLimiter server_opts \<lparr>ip = Some ''10.0.0.1''\<rparr> 1700000000001
          (run server_opts [(\<lparr>ip = Some ''10.0.0.1''\<rparr>, 1700000000000)])) = Next
   \<and> bucket (snd (rateLimiter server_opts \<lparr>ip = Some ''10.0.0.1''\<rparr> 1700000000001
          (run server_opts [(\<lparr>ip = Some ''10.0.0.1''\<rparr>, 1700000000000)]))) ''10.0.0.1''
       = Some [1700000000000, 1700000000001]"
proof -
  have k: "client_key \<lparr>ip = Some ''10.0.0.1''\<rparr> = ''10.0.0.1''"
    by (simp add: client_key_def)
  have r: "recent server_opts 1700000000001
      (run server_opts [(\<lparr>ip = Some ''10.0.0.1''\<rparr>, 1700000000000)]) ''10.0.0.1''
      = [1700000000000]"
    by code_simp
  have m: "maxRequests server_opts = 100"
    by (simp add: server_opts_def)
  have h: "int (length (recent server_opts 1700000000001
      (run server_opts [(\<lparr>ip = Some ''10.0.0.1''\<rparr>, 1700000000000)])
      (client_key \<lparr>ip = Some ''10.0.0.1''\<rparr>))) < maxRequests server_opts"
    by (simp only: k r m) simp
  from admit_path [OF h] h show ?thesis
    by (simp only: k r append.simps simp_thms)
qed

text \<open>
  C6 (REJECT path). Whatever the registry holds, when the pruned sequence of the client key
  has at least \<open>maxRequests\<close> entries the invocation answers instead of calling
  \<^verbatim>\<open>next()\<close>, and afterwards the registry holds, under the client key, exactly the pruned
  sequence: the rejected attempt is not recorded.
\<close>

theorem reject_path:
  assumes "maxRequests opts \<le> int (length (recent opts now s (client_key req)))"
  shows "fst (rateLimiter opts req now s) \<noteq> Next
       \<and> bucket (snd (rateLimiter opts req now s)) (client_key req)
           = Some (recent opts now s (client_key req))"
  using assms by (simp add: rateLimiter_outcome rateLimiter_own_bucket)

theorem reject_path_witness:
  "maxRequests \<lparr>windowInSeconds = 60, maxRequests = 1\<rparr>
     \<le> int (length (recent \<lparr>windowInSeconds = 60, maxRequests = 1\<rparr> 1700000000001
          (run \<lparr>windowInSeconds = 60, maxRequests = 1\<rparr>
             [(\<lparr>ip = Some ''10.0.0.1''\<rparr>, 1700000000000)]) ''10.0.0.1''))
   \<and> fst (rateLimiter \<lparr>windowInSeconds = 60, maxRequests = 1\<rparr>
          \<lparr>ip = Some ''10.0.0.1''\<rparr> 1700000000001
          (run \<lparr>windowInSeconds = 60, maxRequests = 1\<rparr>
             [(\<lparr>ip = Some ''10.0.0.1''\<rparr>, 1700000000000)])) \<noteq> Next
   \<and> bucket (snd (rateLimiter \<lparr>windowInSeconds = 60, maxRequests = 1\<rparr>
          \<lparr>ip = Some ''10.0.0.1''\<rparr> 1700000000001
          (run \<lparr>windowInSeconds = 60, maxRequests = 1\<rparr>
             [(\<lparr>ip = Some ''10.0.0.1''\<rparr>, 1700000000000)]))) ''10.0.0.1''
       = Some [1700000000000]"
proof -
  have k: "client_key \<lparr>ip = Some ''10.0.0.1''\<rparr> = ''10.0.0.1''"
    by (simp add: client_key_def)
  have r: "recent \<lparr>windowInSeconds = 60, maxRequests = 1\<rparr> 1700000000001
      (run \<lparr>windowInSeconds = 60, maxRequests = 1\<rparr>
         [(\<lparr>ip = Some ''10.0.0.1''\<rparr>, 1700000000000)]) ''10.0.0.1''
      = [1700000000000]"
    by code_simp
  have h: "maxRequests \<lparr>windowInSeconds = 60, maxRequests = 1\<rparr>
     \<le> int (length (recent \<lparr>windowInSeconds = 60, maxRequests = 1\<rparr> 1700000000001
          (run \<lparr>windowInSeconds = 60, maxRequests = 1\<rparr>
             [(\<lparr>ip = Some ''10.0.0.1''\<rparr>, 1700000000000)])
          (client_key \<lparr>ip = Some ''10.0.0.1''\<rparr>)))"
    by (simp only: k r) simp
  from reject_path [OF h] h show ?thesis
    by (simp only: k r simp_thms)
qed

text \<open>
  C7 (rejection payload). An invocation that does not call \<^verbatim>\<open>next()\<close> answers with
  status 429 and with the JSON string \<^verbatim>\<open>"Too many requests"\<close> as the whole body, not an
  object around it.
\<close>

theorem rejection_payload:
  assumes "fst (rateLimiter opts req now s) \<noteq> Next"
  shows "fst (rateLimiter opts req now s) = Respond 429 (JString ''Too many requests'')
       \<and> status (fst (rateLimiter opts req now s)) = 429
       \<and> body (fst (rateLimiter opts req now s)) = JString ''Too many requests''
       \<and> (\<forall>fields. body (fst (rateLimiter opts req now s)) \<noteq> JObject fields)"
  using assms by (simp add: rateLimiter_outcome split: if_splits)

theorem rejection_payload_witness:
  "fst (rateLimiter \<lparr>windowInSeconds = 60, maxRequests = 1\<rparr>
          \<lparr>ip = Some ''10.0.0.1''\<rparr> 1700000000001
          (run \<lparr>windowInSeconds = 60, maxRequests = 1\<rparr>
             [(\<lparr>ip = Some ''10.0.0.1''\<rparr>, 1700000000000)])) \<noteq> Next
   \<and> fst (rateLimiter \<lparr>windowInSeconds = 60, maxRequests = 1\<rparr>
          \<lparr>ip = Some ''10.0.0.1''\<rparr> 1700000000001
          (run \<lparr>windowInSeconds = 60, maxRequests = 1\<rparr>
             [(\<lparr>ip = Some ''10.0.0.1''\<rparr>, 1700000000000)]))
       = Respond 429 (JString ''Too many requests'')"
proof -
  have h: "fst (rateLimiter \<lparr>windowInSeconds = 60, maxRequests = 1\<rparr>
          \<lparr>ip = Some ''10.0.0.1''\<rparr> 1700000000001
          (run \<lparr>windowInSeconds = 60, maxRequests = 1\<rparr>
             [(\<lparr>ip = Some ''10.0.0.1''\<rparr>, 1700000000000)])) \<noteq> Next"
    by code_simp
  from rejection_payload [OF h] have
    "fst (rateLimiter \<lparr>windowInSeconds = 60, maxRequests = 1\<rparr>
          \<lparr>ip = Some ''10.0.0.1''\<rparr> 1700000000001
          (run \<lparr>windowInSeconds = 60, maxRequests = 1\<rparr>
             [(\<lparr>ip = Some ''10.0.0.1''\<rparr>, 1700000000000)]))
       = Respond 429 (JString ''Too many requests'')"
    by (rule conjunct1)
  with h show ?thesis by (rule conjI)
qed

text \<open>
  C8 (independent buckets). In every state the limiter can reach, an invocation for client
  key \<open>A\<close> leaves the registry entry of every other key \<open>B\<close> as it was, and the decision on a
  following request of \<open>B\<close> is the one that would have been taken without the request of \<open>A\<close>.
\<close>

theorem independent_buckets:
  assumes "client_key reqA \<noteq> client_key reqB"
  shows "bucket (snd (rateLimiter opts reqA now (run opts calls))) (client_key reqB)
           = bucket (run opts calls) (client_key reqB)
       \<and> fst (rateLimiter opts reqB now' (snd (rateLimiter opts reqA now (run opts calls))))
           = fst (rateLimiter opts reqB now' (run opts calls))"
proof -
  have neq: "client_key reqB \<noteq> client_key reqA"
    using assms by simp
  have same: "bucket (snd (rateLimiter opts reqA now (run opts calls))) (client_key reqB)
           = bucket (run opts calls) (client_key reqB)"
    using run_wf_limiter neq by (rule rateLimiter_other_bucket)
  then have "recent opts now' (snd (rateLimiter opts reqA now (run opts calls))) (client_key reqB)
           = recent opts now' (run opts calls) (client_key reqB)"
    by (simp add: recent_def userRequests_bucket)
  then have "fst (rateLimiter opts reqB now' (snd (rateLimiter opts reqA now (run opts calls))))
           = fst (rateLimiter opts reqB now' (run opts calls))"
    by (simp add: rateLimiter_outcome)
  with same show ?thesis by (rule conjI)
qed

theorem independent_buckets_witness:
  "client_key \<lparr>ip = Some ''10.0.0.1''\<rparr> \<noteq> client_key \<lparr>ip = Some ''10.0.0.2''\<rparr>
   \<and> bucket (snd (rateLimiter \<lparr>windowInSeconds = 60, maxRequests = 1\<rparr>
          \<lparr>ip = Some ''10.0.0.1''\<rparr> 1700000000001
          (run \<lparr>windowInSeconds = 60, maxRequests = 1\<rparr>
             [(\<lparr>ip = Some ''10.0.0.2''\<rparr>, 1700000000000)])))
        (client_key \<lparr>ip = Some ''10.0.0.2''\<rparr>)
       = Some [1700000000000]
   \<and> fst (rateLimiter \<lparr>windowInSeconds = 60, maxRequests = 1\<rparr>
          \<lparr>ip = Some ''10.0.0.2''\<rparr> 1700000000002
          (snd (rateLimiter \<lparr>windowInSeconds = 60, maxRequests = 1\<rparr>
          \<lparr>ip = Some ''10.0.0.1''\<rparr> 1700000000001
          (run \<lparr>windowInSeconds = 60, maxRequests = 1\<rparr>
             [(\<lparr>ip = Some ''10.0.0.2''\<rparr>, 1700000000000)]))))
       = Respond 429 (JString ''Too many requests'')"
proof -
  have h: "client_key \<lparr>ip = Some ''10.0.0.1''\<rparr> \<noteq> client_key \<lparr>ip = Some ''10.0.0.2''\<rparr>"
    by (simp add: client_key_def)
  have b: "bucket (run \<lparr>windowInSeconds = 60, maxRequests = 1\<rparr>
             [(\<lparr>ip = Some ''10.0.0.2''\<rparr>, 1700000000000)])
        (client_key \<lparr>ip = Some ''10.0.0.2''\<rparr>) = Some [1700000000000]"
    by code_simp
  have d: "fst (rateLimiter \<lparr>windowInSeconds = 60, maxRequests = 1\<rparr>
          \<lparr>ip = Some ''10.0.0.2''\<rparr> 1700000000002
          (run \<lparr>windowInSeconds = 60, maxRequests = 1\<rparr>
             [(\<lparr>ip = Some ''10.0.0.2''\<rparr>, 1700000000000)]))
       = Respond 429 (JString ''Too many requests'')"
    by code_simp
  from independent_buckets [OF h] h show ?thesis
    by (simp only: b d simp_thms)
qed

text \<open>
  C9 (missing client key). A request whose \<^verbatim>\<open>ip\<close> is absent or empty is keyed by the fixed
  string \<^verbatim>\<open>'unknown'\<close> and is decided like any other: the entry read and pruned is the one
  under \<^verbatim>\<open>'unknown'\<close>; the request is answered with 429 when that pruned entry has reached
  \<open>maxRequests\<close> and is passed on otherwise; afterwards the registry holds under
  \<^verbatim>\<open>'unknown'\<close> the pruned entry, with \<open>now\<close> appended when the request was passed on; and
  that entry is the one the next request without an address reads. The invocation is the one
  of a request whose address is the string \<^verbatim>\<open>'unknown'\<close>.
\<close>

theorem missing_ip_fallback:
  assumes "ip req = None \<or> ip req = Some ''''"
    and "ip req' = None \<or> ip req' = Some ''''"
  shows "client_key req = ''unknown''
       \<and> fst (rateLimiter opts req now s)
           = (if maxRequests opts \<le> int (length (recent opts now s ''unknown''))
              then Respond 429 (JString ''Too many requests'') else Next)
       \<and> bucket (snd (rateLimiter opts req now s)) ''unknown''
           = Some (if maxRequests opts \<le> int (length (recent opts now s ''unknown''))
                   then recent opts now s ''unknown''
                   else recent opts now s ''unknown'' @ [now])
       \<and> userRequests (snd (rateLimiter opts req now s)) (client_key req')
           = (if maxRequests opts \<le> int (length (recent opts now s ''unknown''))
              then recent opts now s ''unknown''
              else recent opts now s ''unknown'' @ [now])
       \<and> rateLimiter opts req now s = rateLimiter opts \<lparr>ip = Some ''unknown''\<rparr> now s"
proof -
  have k: "client_key req = ''unknown''"
    using assms(1) by (auto simp add: client_key_def)
  have k': "client_key req' = ''unknown''"
    using assms(2) by (auto simp add: client_key_def)
  have d: "fst (rateLimiter opts req now s)
      = (if maxRequests opts \<le> int (length (recent opts now s ''unknown''))
         then Respond 429 (JString ''Too many requests'') else Next)"
    using rateLimiter_outcome [of opts req now s] by (simp only: k)
  have b: "bucket (snd (rateLimiter opts req now s)) ''unknown''
      = Some (if maxRequests opts \<le> int (length (recent opts now s ''unknown''))
              then recent opts now s ''unknown''
              else recent opts now s ''unknown'' @ [now])"
    using rateLimiter_own_bucket [of opts req now s] by (simp only: k)
  have u: "userRequests (snd (rateLimiter opts req now s)) (client_key req')
      = (if maxRequests opts \<le> int (length (recent opts now s ''unknown''))
         then recent opts now s ''unknown''
         else recent opts now s ''unknown'' @ [now])"
    by (simp only: k' userRequests_bucket b option.case)
  have "client_key \<lparr>ip = Some ''unknown''\<rparr> = ''unknown''"
    by (simp add: client_key_def)
  with k have e: "rateLimiter opts req now s = rateLimiter opts \<lparr>ip = Some ''unknown''\<rparr> now s"
    by (simp add: rateLimiter_def)
  from k d b u e show ?thesis
    by (intro conjI)
qed

theorem missing_ip_fallback_witness:
  "(ip \<lparr>ip = None\<rparr> = None \<or> ip \<lparr>ip = None\<rparr> = Some '''')
   \<and> (ip \<lparr>ip = Some ''''\<rparr> = None \<or> ip \<lparr>ip = Some ''''\<rparr> = Some '''')
   \<and> recent \<lparr>windowInSeconds = 60, maxRequests = 2\<rparr> 1700000000001
        (run \<lparr>windowInSeconds = 60, maxRequests = 2\<rparr>
           [(\<lparr>ip = Some ''''\<rparr>, 1700000000000)]) ''unknown''
       = [1700000000000]
   \<and> fst (rateLimiter \<lparr>windowInSeconds = 60, maxRequests = 2\<rparr> \<lparr>ip = None\<rparr> 1700000000001
        (run \<lparr>windowInSeconds = 60, maxRequests = 2\<rparr>
           [(\<lparr>ip = Some ''''\<rparr>, 1700000000000)]))
       = Next
   \<and> bucket (snd (rateLimiter \<lparr>windowInSeconds = 60, maxRequests = 2\<rparr> \<lparr>ip = None\<rparr>
        1700000000001
        (run \<lparr>windowInSeconds = 60, maxRequests = 2\<rparr>
           [(\<lparr>ip = Some ''''\<rparr>, 1700000000000)]))) ''unknown''
       = Some [1700000000000, 1700000000001]
   \<and> userRequests (snd (rateLimiter \<lparr>windowInSeconds = 60, maxRequests = 2\<rparr> \<lparr>ip = None\<rparr>
        1700000000001
        (run \<lparr>windowInSeconds = 60, maxRequests = 2\<rparr>
           [(\<lparr>ip = Some ''''\<rparr>, 1700000000000)]))) (client_key \<lparr>ip = Some ''''\<rparr>)
       = [1700000000000, 1700000000001]
   \<and> fst (rateLimiter \<lparr>windowInSeconds = 60, maxRequests = 2\<rparr> \<lparr>ip = Some ''''\<rparr>
        1700000000002
        (run \<lparr>windowInSeconds = 60, maxRequests = 2\<rparr>
           [(\<lparr>ip = Some ''''\<rparr>, 1700000000000), (\<lparr>ip = None\<rparr>, 1700000000001)]))
       = Respond 429 (JString ''Too many requests'')"
proof -
  have h: "ip \<lparr>ip = None\<rparr> = None \<or> ip \<lparr>ip = None\<rparr> = Some ''''"
    by simp
  have h': "ip \<lparr>ip = Some ''''\<rparr> = None \<or> ip \<lparr>ip = Some ''''\<rparr> = Some ''''"
    by simp
  have r: "recent \<lparr>windowInSeconds = 60, maxRequests = 2\<rparr> 1700000000001
        (run \<lparr>windowInSeconds = 60, maxRequests = 2\<rparr>
           [(\<lparr>ip = Some ''''\<rparr>, 1700000000000)]) ''unknown''
       = [1700000000000]"
    by code_simp
  have m: "\<not> maxRequests \<lparr>windowInSeconds = 60, maxRequests = 2\<rparr>
       \<le> int (length [1700000000000 :: int])"
    by simp
  note c = missing_ip_fallback [OF h h', of "\<lparr>windowInSeconds = 60, maxRequests = 2\<rparr>"
      1700000000001
      "run \<lparr>windowInSeconds = 60, maxRequests = 2\<rparr> [(\<lparr>ip = Some ''''\<rparr>, 1700000000000)]"]
  have d: "fst (rateLimiter \<lparr>windowInSeconds = 60, maxRequests = 2\<rparr> \<lparr>ip = None\<rparr> 1700000000001
        (run \<lparr>windowInSeconds = 60, maxRequests = 2\<rparr>
           [(\<lparr>ip = Some ''''\<rparr>, 1700000000000)]))
       = Next"
    using c [THEN conjunct2, THEN conjunct1] by (simp only: r m if_False)
  have b: "bucket (snd (rateLimiter \<lparr>windowInSeconds = 60, maxRequests = 2\<rparr> \<lparr>ip = None\<rparr>
        1700000000001
        (run \<lparr>windowInSeconds = 60, maxRequests = 2\<rparr>
           [(\<lparr>ip = Some ''''\<rparr>, 1700000000000)]))) ''unknown''
       = Some [1700000000000, 1700000000001]"
    using c [THEN conjunct2, THEN conjunct2, THEN conjunct1]
    by (simp only: r m if_False append.simps)
  have u: "userRequests (snd (rateLimiter \<lparr>windowInSeconds = 60, maxRequests = 2\<rparr> \<lparr>ip = None\<rparr>
        1700000000001
        (run \<lparr>windowInSeconds = 60, maxRequests = 2\<rparr>
           [(\<lparr>ip = Some ''''\<rparr>, 1700000000000)]))) (client_key \<lparr>ip = Some ''''\<rparr>)
       = [1700000000000, 1700000000001]"
    using c [THEN conjunct2, THEN conjunct2, THEN conjunct2, THEN conjunct1]
    by (simp only: r m if_False append.simps)
  have f: "fst (rateLimiter \<lparr>windowInSeconds = 60, maxRequests = 2\<rparr> \<lparr>ip = Some ''''\<rparr>
        1700000000002
        (run \<lparr>windowInSeconds = 60, maxRequests = 2\<rparr>
           [(\<lparr>ip = Some ''''\<rparr>, 1700000000000), (\<lparr>ip = None\<rparr>, 1700000000001)]))
       = Respond 429 (JString ''Too many requests'')"
    by code_simp
  from h h' r d b u f show ?thesis
    by (intro conjI)
qed

text \<open>
  C10 (permanent lockout). Let the window be positive and let the clock readings of the
  calls of a client key be readings of an epoch clock, so that a thousand times any of them
  is not less than any other. Then the filter keeps every stored timestamp, and once
  \<open>maxRequests\<close> calls of the key have been admitted, every later request of that key is
  answered with 429, at whatever reading of the clock it arrives.
\<close>

theorem permanent_lockout:
  assumes "0 < windowInSeconds opts"
    and "\<forall>c\<in>set calls. client_key (fst c) = client_key req \<longrightarrow> epoch_ms lo (snd c)"
    and "epoch_ms lo now"
    and "maxRequests opts \<le> int (length (admitted opts (client_key req) calls init))"
  shows "recent opts now (run opts calls) (client_key req)
           = userRequests (run opts calls) (client_key req)
       \<and> fst (rateLimiter opts req now (run opts calls))
           = Respond 429 (JString ''Too many requests'')"
proof -
  have stored: "userRequests (run opts calls) (client_key req)
      = admitted opts (client_key req) calls init"
    using assms(1,2) by (rule run_epoch)
  have "\<forall>t\<in>set (userRequests (run opts calls) (client_key req)). epoch_ms lo t"
    unfolding stored using assms(2) by (fastforce dest: admitted_from_calls)
  with assms(1,3) have kept: "recent opts now (run opts calls) (client_key req)
      = userRequests (run opts calls) (client_key req)"
    by (rule recent_epoch)
  then have "fst (rateLimiter opts req now (run opts calls))
      = Respond 429 (JString ''Too many requests'')"
    using assms(4) by (simp add: rateLimiter_outcome stored)
  with kept show ?thesis by (rule conjI)
qed

theorem permanent_lockout_witness:
  "0 < windowInSeconds \<lparr>windowInSeconds = 60, maxRequests = 2\<rparr>
   \<and> epoch_ms 1000000000000 1700000000000
   \<and> epoch_ms 1000000000000 1700000000001
   \<and> epoch_ms 1000000000000 1800000000000
   \<and> maxRequests \<lparr>windowInSeconds = 60, maxRequests = 2\<rparr>
       \<le> int (length (admitted \<lparr>windowInSeconds = 60, maxRequests = 2\<rparr>
             (client_key \<lparr>ip = Some ''10.0.0.1''\<rparr>)
             [(\<lparr>ip = Some ''10.0.0.1''\<rparr>, 1700000000000),
              (\<lparr>ip = Some ''10.0.0.1''\<rparr>, 1700000000001)] init))
   \<and> fst (rateLimiter \<lparr>windowInSeconds = 60, maxRequests = 2\<rparr>
          \<lparr>ip = Some ''10.0.0.1''\<rparr> 1800000000000
          (run \<lparr>windowInSeconds = 60, maxRequests = 2\<rparr>
             [(\<lparr>ip = Some ''10.0.0.1''\<rparr>, 1700000000000),
              (\<lparr>ip = Some ''10.0.0.1''\<rparr>, 1700000000001)]))
       = Respond 429 (JString ''Too many requests'')"
proof -
  have h1: "0 < windowInSeconds \<lparr>windowInSeconds = 60, maxRequests = 2\<rparr>"
    by simp
  have h2: "\<forall>c\<in>set [(\<lparr>ip = Some ''10.0.0.1''\<rparr>, 1700000000000),
                 (\<lparr>ip = Some ''10.0.0.1''\<rparr>, 1700000000001)].
         client_key (fst c) = client_key \<lparr>ip = Some ''10.0.0.1''\<rparr>
           \<longrightarrow> epoch_ms 1000000000000 (snd c)"
    by (simp add: epoch_ms_def)
  have h3: "epoch_ms 1000000000000 1800000000000"
    by (simp add: epoch_ms_def)
  have h4: "maxRequests \<lparr>windowInSeconds = 60, maxRequests = 2\<rparr>
       \<le> int (length (admitted \<lparr>windowInSeconds = 60, maxRequests = 2\<rparr>
             (client_key \<lparr>ip = Some ''10.0.0.1''\<rparr>)
             [(\<lparr>ip = Some ''10.0.0.1''\<rparr>, 1700000000000),
              (\<lparr>ip = Some ''10.0.0.1''\<rparr>, 1700000000001)] init))"
    by code_simp
  have e: "epoch_ms 1000000000000 1700000000000" "epoch_ms 1000000000000 1700000000001"
    by (simp_all add: epoch_ms_def)
  note c = permanent_lockout [OF h1 h2 h3 h4, THEN conjunct2]
  from h1 e h3 h4 c show ?thesis
    by (intro conjI)
qed

end
